theory Spec2Isabelle
  imports Main
begin

section \<open>The domain readiness poller and the open operation (src/shared/open.ts)\<close>

text \<open>
  The module talks to the outside through a handful of collaborators: the environment
  variables, the number parser \<open>toNumber\<close>, the DNS lookup, the classification of internal
  URLs, the container-mode switch, the browser launcher and the spinner of the \<open>UX\<close> object.
  None of them is part of the module. They are gathered in the record \<open>deps\<close>; the effects the
  module performs on them are recorded, in order, in a trace.

  Messages are looked up by key in a message file that is not part of the module, so a
  message is kept as its key together with the tokens passed to it.
\<close>

datatype message = Message string "string list"

datatype error =
    LookupError string
  | TypeError
  | SfdxError message string "message list"
  | BrowserError string

datatype effect =
    DnsLookup string
  | StartSpinner message
  | StopSpinner
  | Sleep nat
  | OpenBrowser string

type_synonym trace = "effect list"

text \<open>
  \<open>getString\<close> reads an environment variable. \<open>toNumber\<close> is the number parser; its results
  are taken to be integers (a retry count), so a text that parses to no number or to a
  fraction is outside the model. \<open>lookup k d\<close> is the outcome of the \<open>k\<close>-th DNS lookup of the
  run (counted from 0), asked for the domain \<open>d\<close>: the resolved address, or the error the
  lookup rejects with. \<open>openBrowser u\<close> is \<open>None\<close> when the browser launches and the rejection
  otherwise.
\<close>

record deps =
  getString :: "string \<Rightarrow> string option"
  toNumber :: "string \<Rightarrow> int"
  lookup :: "nat \<Rightarrow> string \<Rightarrow> error + string"
  isInternalUrl :: "string \<Rightarrow> bool"
  isSFDXContainerMode :: bool
  openBrowser :: "string \<Rightarrow> error option"

record ret_val =
  url :: string
  orgId :: string
  username :: string

definition getMessage :: "string \<Rightarrow> message" where
  "getMessage key = Message key []"

text \<open>\<open>getDomainRetries\<close> (line 67): the variable \<open>SFDX_DOMAIN_RETRY\<close>, by default 240.\<close>

definition getDomainRetries :: "deps \<Rightarrow> int" where
  "getDomainRetries s =
     toNumber s (case getString s ''SFDX_DOMAIN_RETRY'' of None \<Rightarrow> ''240'' | Some v \<Rightarrow> v)"

fun isLookup :: "effect \<Rightarrow> bool" where
  "isLookup (DnsLookup d) = True"
| "isLookup e = False"

definition attempts :: "trace \<Rightarrow> nat" where
  "attempts tr = length (filter isLookup tr)"

text \<open>\<open>checkDns\<close> (lines 69-71): one lookup; the trace gains the lookup.\<close>

definition checkDns :: "deps \<Rightarrow> string \<Rightarrow> trace \<Rightarrow> (error + string) \<times> trace" where
  "checkDns s domain tr = (lookup s (attempts tr) domain, tr @ [DnsLookup domain])"

text \<open>\<open>delay\<close> (lines 73-75): sleep for one second.\<close>

definition delay :: "trace \<Rightarrow> trace" where
  "delay tr = tr @ [Sleep 1]"

text \<open>
  \<open>checkLightningDomain\<close> (lines 77-101). The result is \<open>Inr ()\<close> when the promise resolves
  and \<open>Inl err\<close> when it rejects with \<open>err\<close>. The debug lines written to the logger are left
  out of the trace.
\<close>

function checkLightningDomain :: "deps \<Rightarrow> string \<Rightarrow> nat \<Rightarrow> trace \<Rightarrow> (error + unit) \<times> trace" where
  "checkLightningDomain s myDomain retryCount tr =
     (case checkDns s (myDomain @ ''.lightning.force.com'') tr of
        (Inr ip, tr1) \<Rightarrow>
          (Inr (), if retryCount > 0 then tr1 @ [StopSpinner] else tr1)
      | (Inl err, tr1) \<Rightarrow>
          if int retryCount \<ge> getDomainRetries s
          then (Inl err, tr1 @ [StopSpinner])
          else checkLightningDomain s myDomain (Suc retryCount)
                 (delay (if retryCount = 0
                         then tr1 @ [StartSpinner (getMessage ''openCommandDomainWaiting'')]
                         else tr1)))"
  by pat_completeness auto
termination
  by (relation "measure (\<lambda>(s, myDomain, retryCount, tr). nat (getDomainRetries s - int retryCount))")
     auto

text \<open>
  The regular expression of line 138, \<open>https?://([^.]*)\<close>, searched from the left: the first
  place where \<open>http://\<close> or \<open>https://\<close> starts, and as capture the longest run of characters
  other than the dot that follows. \<open>None\<close> is the \<open>null\<close> that \<open>match\<close> returns when the
  expression matches nowhere.
\<close>

fun matchMyDomain :: "string \<Rightarrow> string option" where
  "matchMyDomain [] = None"
| "matchMyDomain (c # cs) =
     (if take 8 (c # cs) = ''https://''
      then Some (takeWhile (\<lambda>x. x \<noteq> CHR ''.'') (drop 8 (c # cs)))
      else if take 7 (c # cs) = ''http://''
      then Some (takeWhile (\<lambda>x. x \<noteq> CHR ''.'') (drop 7 (c # cs)))
      else matchMyDomain cs)"

text \<open>\<open>act\<close> (lines 124-129): open the browser unless only the URL is wanted.\<close>

definition act :: "deps \<Rightarrow> bool \<Rightarrow> ret_val \<Rightarrow> trace \<Rightarrow> (error + ret_val) \<times> trace" where
  "act s urlOnly retVal tr =
     (if \<not> urlOnly \<and> \<not> isSFDXContainerMode s
      then (case openBrowser s (url retVal) of
              None \<Rightarrow> (Inr retVal, tr @ [OpenBrowser (url retVal)])
            | Some e \<Rightarrow> (Inl e, tr @ [OpenBrowser (url retVal)]))
      else (Inr retVal, tr))"

text \<open>The error built at lines 142-144: message, name and one action; no cause is passed.\<close>

definition domainTimeoutError :: error where
  "domainTimeoutError =
     SfdxError (getMessage ''openCommandDomainTimeoutError'') ''openCommandDomainTimeoutError''
       [getMessage ''openCommandDomainTimeoutAction'']"

text \<open>
  The body of the inner \<open>try\<close> (lines 138-139), up to the point where it goes on to
  \<open>return act()\<close>: indexing the \<open>null\<close> of a failed match throws a \<open>TypeError\<close>; otherwise the
  poller runs on the captured name, from retry 0.
\<close>

definition tryBody :: "deps \<Rightarrow> string \<Rightarrow> trace \<Rightarrow> (error + unit) \<times> trace" where
  "tryBody s u tr =
     (case matchMyDomain u of
        None \<Rightarrow> (Inl TypeError, tr)
      | Some myDomain \<Rightarrow> checkLightningDomain s myDomain 0 tr)"

text \<open>
  The inner \<open>try ... catch\<close> of lines 137-145: its handler replaces whatever the body threw
  (the \<open>TypeError\<close>, or the rejection of the poller) by the timeout error (\<open>Inl\<close>); \<open>Inr ()\<close>
  means that the body reached \<open>return act()\<close>.
\<close>

definition innerTry :: "deps \<Rightarrow> string \<Rightarrow> trace \<Rightarrow> (error + unit) \<times> trace" where
  "innerTry s u tr =
     (case tryBody s u tr of
        (Inl err, tr') \<Rightarrow> (Inl domainTimeoutError, tr')
      | (Inr ok, tr') \<Rightarrow> (Inr (), tr'))"

text \<open>
  \<open>open.open\<close> (lines 113-150), from the URL that \<open>buildUrl\<close> resolved to (a rejection of
  \<open>buildUrl\<close> ends the operation before anything below happens). \<open>return act()\<close> hands the
  promise of \<open>act\<close> to the caller without awaiting it, so a rejection of \<open>act\<close> is not seen
  by either handler. The outer handler (lines 146-149) catches what the inner one throws.
\<close>

definition open_open :: "deps \<Rightarrow> ret_val \<Rightarrow> bool \<Rightarrow> trace \<Rightarrow> (error + ret_val) \<times> trace" where
  "open_open s retVal urlOnly tr =
     (if getDomainRetries s = 0 \<or> isInternalUrl s (url retVal)
      then act s urlOnly retVal tr
      else (case innerTry s (url retVal) tr of
              (Inr ok, tr') \<Rightarrow> act s urlOnly retVal tr'
            | (Inl err, tr') \<Rightarrow> act s urlOnly retVal tr'))"

text \<open>Observations on a trace, used to state what the poller did.\<close>

fun lookupOrSleep :: "effect \<Rightarrow> bool" where
  "lookupOrSleep (DnsLookup d) = True"
| "lookupOrSleep (Sleep n) = True"
| "lookupOrSleep e = False"

fun isSpinner :: "effect \<Rightarrow> bool" where
  "isSpinner (StartSpinner m) = True"
| "isSpinner StopSpinner = True"
| "isSpinner e = False"

text \<open>
  Example collaborators: a network where no lookup ever succeeds, with a budget of two
  retries; the same with the budget set to 0; one where the fourth lookup succeeds, with the
  default budget; and one whose URLs are all classified internal.
\<close>

definition offline :: deps where
  "offline =
     \<lparr>getString = (\<lambda>k. if k = ''SFDX_DOMAIN_RETRY'' then Some ''2'' else None),
      toNumber = (\<lambda>v. if v = ''2'' then 2 else 240),
      lookup = (\<lambda>k d. Inl (LookupError ''ENOTFOUND'')),
      isInternalUrl = (\<lambda>u. False),
      isSFDXContainerMode = False,
      openBrowser = (\<lambda>u. None)\<rparr>"

definition noRetry :: deps where
  "noRetry = offline\<lparr>getString := (\<lambda>k. if k = ''SFDX_DOMAIN_RETRY'' then Some ''0'' else None),
                     toNumber := (\<lambda>v. if v = ''0'' then 0 else 240)\<rparr>"

definition slowDns :: deps where
  "slowDns =
     \<lparr>getString = (\<lambda>k. None),
      toNumber = (\<lambda>v. if v = ''240'' then 240 else 0),
      lookup = (\<lambda>k d. if k < 3 then Inl (LookupError ''ENOTFOUND'') else Inr ''10.0.0.7''),
      isInternalUrl = (\<lambda>u. False),
      isSFDXContainerMode = False,
      openBrowser = (\<lambda>u. None)\<rparr>"

definition internalOrg :: deps where
  "internalOrg = offline\<lparr>isInternalUrl := (\<lambda>u. True)\<rparr>"

definition acme :: ret_val where
  "acme = \<lparr>url = ''https://acme.my.salesforce.com/secur/frontdoor.jsp?sid=t0ken'',
           orgId = ''00D000000000001'', username = ''dev@acme.org''\<rparr>"

section \<open>The scratch org creation command (src/commands/org/create/scratch-ink.tsx)\<close>

subsection \<open>Errors, events and results\<close>

text \<open>
  A thrown value, as far as the command inspects it: whether it is an \<open>SfError\<close>, its name, its
  message, and the \<open>scratchOrgInfoId\<close> of its \<open>data\<close> (\<open>None\<close> when the error carries no data).
\<close>

record js_error =
  instanceofSfError :: bool
  errName :: string
  errMessage :: string
  errData :: "string option"

text \<open>\<open>new SfError(msg)\<close>: the name defaults to that of the class.\<close>

definition SfError :: "string \<Rightarrow> js_error" where
  "SfError msg = \<lparr>instanceofSfError = True, errName = ''SfError'', errMessage = msg, errData = None\<rparr>"

text \<open>
  What reading a property of \<open>undefined\<close> throws. The wording of its message depends on the
  engine; it is shortened here, and nothing below depends on it.
\<close>

definition typeError :: js_error where
  "typeError = \<lparr>instanceofSfError = False, errName = ''TypeError'',
                 errMessage = ''Cannot read properties of undefined'', errData = None\<rparr>"

text \<open>
  The fields of the scratch org info that the command reads (\<open>Id\<close>, \<open>ScratchOrg\<close>,
  \<open>SignupUsername\<close>), a lifecycle event, and the result of the creation call. The command's
  response is the result with the org id added.
\<close>

record scratch_org_info =
  Id' :: "string option"
  ScratchOrg :: "string option"
  SignupUsername :: "string option"

record lifecycle_event =
  stage :: string
  scratchOrgInfo :: "scratch_org_info option"

record auth_fields =
  authOrgId :: "string option"

record create_result =
  res_username :: "string option"
  res_scratchOrgInfo :: "scratch_org_info option"
  res_authFields :: "auth_fields option"
  res_warnings :: "string list"

record create_response = create_result +
  res_orgId :: "string option"

subsection \<open>The status view (lines 33-113)\<close>

text \<open>
  What \<open>Status\<close> returns, as data. The three formatting helpers and \<open>capitalCase\<close> are not
  part of the file: a formatted value is kept as the call that formats it, a stage row keeps
  the stage name as it is. A spinner carries the error it was given.
\<close>

datatype formatted = FormatRequest string string | FormatOrgId string | FormatUsername string

datatype info_line = InfoValue formatted | InfoSpinner "js_error option" | InfoEmpty

datatype stage_row =
    CurrentStage string "js_error option"
  | CompletedStage string
  | DoneStage string
  | FutureStage string

record status_view =
  requestIdLine :: info_line
  orgIdLine :: info_line
  usernameLine :: info_line
  stageRows :: "stage_row option list"

datatype node = SpinnerNode string | StatusNode "status_view option"

text \<open>\<open>Array.prototype.indexOf\<close>: the first position of the element, or \<open>-1\<close>.\<close>

fun indexOf :: "'a list \<Rightarrow> 'a \<Rightarrow> int" where
  "indexOf [] x = - 1"
| "indexOf (y # ys) x =
     (if y = x then 0 else (let i = indexOf ys x in if i < 0 then - 1 else i + 1))"

text \<open>
  One of the lines of 44-69, \<open>(v && <Text>...</Text>) ?? <Box>...spinner...</Box>\<close>: the
  spinner when \<open>v\<close> is undefined, the empty string itself when \<open>v\<close> is the empty string, the
  formatted value otherwise.
\<close>

definition infoLine :: "string option \<Rightarrow> (string \<Rightarrow> formatted) \<Rightarrow> js_error option \<Rightarrow> info_line" where
  "infoLine v fmt err =
     (case v of
        None \<Rightarrow> InfoSpinner err
      | Some x \<Rightarrow> if x = [] then InfoEmpty else InfoValue (fmt x))"

text \<open>
  The callback of \<open>scratchOrgLifecycleStages.map\<close> (lines 73-109), with its four tests in the
  order of the source; \<open>None\<close> is the \<open>undefined\<close> returned when none of them applies.
\<close>

definition stageRow :: "string list \<Rightarrow> string \<Rightarrow> js_error option \<Rightarrow> nat \<times> string \<Rightarrow> stage_row option" where
  "stageRow stages current err p =
     (case p of (stageIndex, stg) \<Rightarrow>
        if current = stg \<and> stg \<noteq> ''done'' then Some (CurrentStage stg err)
        else if indexOf stages current > int stageIndex then Some (CompletedStage stg)
        else if current = stg \<and> stg = ''done'' then Some (DoneStage stg)
        else if stg \<noteq> ''done'' then Some (FutureStage stg)
        else None)"

text \<open>
  \<open>Status\<close>: nothing without data. The list \<open>stages\<close> is \<open>scratchOrgLifecycleStages\<close>, a
  constant of the SDK; it is a parameter here.
\<close>

definition Status :: "string list \<Rightarrow> lifecycle_event option \<Rightarrow> string \<Rightarrow> js_error option \<Rightarrow> status_view option" where
  "Status stages data baseUrl err =
     (case data of
        None \<Rightarrow> None
      | Some d \<Rightarrow>
          Some \<lparr>requestIdLine = infoLine (Option.bind (scratchOrgInfo d) Id') (FormatRequest baseUrl) err,
                orgIdLine = infoLine (Option.bind (scratchOrgInfo d) ScratchOrg) FormatOrgId err,
                usernameLine = infoLine (Option.bind (scratchOrgInfo d) SignupUsername) FormatUsername err,
                stageRows = map (stageRow stages (stage d) err) (enumerate 0 stages)\<rparr>)"

text \<open>The stages a list of rows shows as completed, in the order of the rows.\<close>

fun completedOf :: "stage_row option list \<Rightarrow> string list" where
  "completedOf [] = []"
| "completedOf (Some (CompletedStage s) # rows) = s # completedOf rows"
| "completedOf (r # rows) = completedOf rows"

text \<open>
  The stages whose position in the stage list is strictly before the position of the
  current stage: the reading of completed that the specification gives.
\<close>

definition precedingStages :: "string list \<Rightarrow> string \<Rightarrow> string list" where
  "precedingStages stages current =
     map snd (filter (\<lambda>p. int (fst p) < indexOf stages current) (enumerate 0 stages))"

subsection \<open>The rendering surface\<close>

text \<open>
  \<open>render\<close> of the rendering library returns a handle with \<open>rerender\<close>, \<open>unmount\<close> and
  \<open>clear\<close>. The library is not part of the repository. The handle is modelled by the calls
  the command makes on it (\<open>calls\<close>, which is all the command itself decides) together with
  the library's reaction: a mounted surface draws the node it is given; \<open>unmount\<close> tears a
  mounted surface down, and after that neither \<open>rerender\<close> nor a second \<open>unmount\<close> has any
  effect. \<open>frames\<close> lists the nodes drawn.
\<close>

datatype call = Rerender node | Unmount | Clear

record Instance =
  calls :: "call list"
  mounted :: bool
  frames :: "node list"

definition render :: "node \<Rightarrow> Instance" where
  "render n = \<lparr>calls = [], mounted = True, frames = [n]\<rparr>"

definition rerender :: "node \<Rightarrow> Instance \<Rightarrow> Instance" where
  "rerender n i =
     (if mounted i then i\<lparr>calls := calls i @ [Rerender n], frames := frames i @ [n]\<rparr>
      else i\<lparr>calls := calls i @ [Rerender n]\<rparr>)"

definition unmount :: "Instance \<Rightarrow> Instance" where
  "unmount i = i\<lparr>calls := calls i @ [Unmount], mounted := False\<rparr>"

definition clear :: "Instance \<Rightarrow> Instance" where
  "clear i = i\<lparr>calls := calls i @ [Clear]\<rparr>"

fun rerenders :: "call list \<Rightarrow> node list" where
  "rerenders [] = []"
| "rerenders (Rerender n # cs) = n # rerenders cs"
| "rerenders (c # cs) = rerenders cs"

fun unmountCalls :: "call list \<Rightarrow> nat" where
  "unmountCalls [] = 0"
| "unmountCalls (Unmount # cs) = Suc (unmountCalls cs)"
| "unmountCalls (c # cs) = unmountCalls cs"

subsection \<open>\<open>OrgCreateScratch.run\<close> (lines 246-315)\<close>

text \<open>
  The state of one run: the two optional surfaces, the last lifecycle event seen, whether
  the lifecycle callback is registered, and the lines printed (\<open>log\<close>, \<open>info\<close>,
  \<open>logSuccess\<close>).
\<close>

datatype out = Log | Info message | LogSuccess message

record run_state =
  asyncInstance :: "Instance option"
  statusInstance :: "Instance option"
  scratchOrgLifecycleData :: "lifecycle_event option"
  subscribed :: bool
  printed :: "out list"

text \<open>
  How a run ends: it returns the response, it throws, or \<open>this.error\<close> ends the process with
  an exit code.
\<close>

datatype outcome = Returned create_response | Thrown js_error | Exit nat string

fun isFailure :: "outcome \<Rightarrow> bool" where
  "isFailure (Returned r) = False"
| "isFailure (Thrown e) = True"
| "isFailure (Exit code msg) = True"

text \<open>
  The inputs of a run: the \<open>--async\<close> flag, the instance URL of the dev hub, the rejection of
  \<open>buildScratchOrgRequest\<close> if it rejects, and the name of the program. The creation call of
  the SDK is given by what it does: the lifecycle events it emits, in order, and then how
  its promise settles.
\<close>

record command =
  async :: bool
  instanceUrl :: "string option"
  requestError :: "js_error option"
  bin :: string

record creation =
  emitted :: "lifecycle_event list"
  settled :: "js_error + create_result"

definition initial :: run_state where
  "initial = \<lparr>asyncInstance = None, statusInstance = None, scratchOrgLifecycleData = None,
              subscribed = False, printed = []\<rparr>"

text \<open>The callback registered at lines 269-276.\<close>

definition callback :: "string list \<Rightarrow> string \<Rightarrow> lifecycle_event \<Rightarrow> run_state \<Rightarrow> run_state" where
  "callback stages baseUrl data st =
     (let st1 = st\<lparr>scratchOrgLifecycleData := Some data\<rparr>;
          st2 = st1\<lparr>statusInstance :=
                  map_option (rerender (StatusNode (Status stages (Some data) baseUrl None)))
                    (statusInstance st1)\<rparr>
      in if stage data = ''done''
         then st2\<lparr>statusInstance := map_option unmount (statusInstance st2)\<rparr>
         else st2)"

text \<open>An event emitted on the lifecycle reaches the callback if it is registered.\<close>

definition emit :: "string list \<Rightarrow> string \<Rightarrow> lifecycle_event \<Rightarrow> run_state \<Rightarrow> run_state" where
  "emit stages baseUrl data st = (if subscribed st then callback stages baseUrl data st else st)"

definition asyncLabel :: string where
  "asyncLabel = '' Requesting Scratch Org (will not wait for completion because --async)''"

text \<open>Lines 263-277: the surface of the chosen mode, and in the waiting mode the subscription.\<close>

definition startRendering :: "string list \<Rightarrow> command \<Rightarrow> string \<Rightarrow> run_state \<Rightarrow> run_state" where
  "startRendering stages cmd baseUrl st =
     (if async cmd
      then st\<lparr>asyncInstance := Some (render (SpinnerNode asyncLabel))\<rparr>
      else st\<lparr>statusInstance := Some (render (StatusNode (Status stages None baseUrl None))),
              subscribed := True\<rparr>)"

text \<open>An undefined token of a message is printed as \<open>undefined\<close>.\<close>

definition showOpt :: "string option \<Rightarrow> string" where
  "showOpt v = (case v of None \<Rightarrow> ''undefined'' | Some x \<Rightarrow> x)"

text \<open>
  The \<open>try\<close> block (lines 280-294), from the settled creation call on: \<open>Inl\<close> is what the
  block throws, \<open>Inr\<close> the response it returns.
\<close>

definition tryBlock :: "command \<Rightarrow> js_error + create_result \<Rightarrow> run_state \<Rightarrow> (js_error + create_response) \<times> run_state" where
  "tryBlock cmd res st =
     (case res of
        Inl e \<Rightarrow> (Inl e, st)
      | Inr r \<Rightarrow>
          (case res_scratchOrgInfo r of
             None \<Rightarrow> (Inl (SfError ''The scratch org did not return with any information''), st)
           | Some info \<Rightarrow>
               (let st1 = st\<lparr>printed := printed st @ [Log]\<rparr>;
                    st2 = (if async cmd
                           then st1\<lparr>asyncInstance := map_option (unmount \<circ> clear) (asyncInstance st1),
                                    printed := printed st1 @
                                      [Info (Message ''action.resume'' [bin cmd, showOpt (Id' info)])]\<rparr>
                           else st1\<lparr>printed := printed st1 @ [LogSuccess (Message ''success'' [])]\<rparr>)
                in (Inr (create_result.extend r
                          (create_response.fields (Option.bind (res_authFields r) authOrgId))), st2))))"

text \<open>The \<open>catch\<close> block (lines 295-314).\<close>

definition catchBlock :: "string list \<Rightarrow> command \<Rightarrow> string \<Rightarrow> js_error \<Rightarrow> run_state \<Rightarrow> outcome \<times> run_state" where
  "catchBlock stages cmd baseUrl err st =
     (let st1 = st\<lparr>asyncInstance := map_option unmount (asyncInstance st)\<rparr>;
          st2 = st1\<lparr>statusInstance :=
                  map_option
                    (\<lambda>i. unmount (rerender
                       (StatusNode (Status stages (scratchOrgLifecycleData st1) baseUrl (Some err))) i))
                    (statusInstance st1)\<rparr>
      in if instanceofSfError err \<and> errName err = ''ScratchOrgInfoTimeoutError''
         then (case errData err of
                 None \<Rightarrow> (Thrown typeError, st2)
               | Some scratchOrgInfoId \<Rightarrow>
                   (Exit 69 ''The scratch org did not complete within your wait time'',
                    st2\<lparr>printed := printed st2 @
                          [Info (Message ''action.resume'' [bin cmd, scratchOrgInfoId])]\<rparr>))
         else (Thrown err, st2))"

text \<open>The creation call: its events are emitted, then its promise settles.\<close>

definition scratchOrgCreate :: "string list \<Rightarrow> string \<Rightarrow> creation \<Rightarrow> run_state \<Rightarrow> (js_error + create_result) \<times> run_state" where
  "scratchOrgCreate stages baseUrl c st = (settled c, fold (emit stages baseUrl) (emitted c) st)"

text \<open>One creation attempt: lines 259-315.\<close>

definition attempt :: "string list \<Rightarrow> command \<Rightarrow> string \<Rightarrow> creation \<Rightarrow> outcome \<times> run_state" where
  "attempt stages cmd baseUrl c =
     (case scratchOrgCreate stages baseUrl c (startRendering stages cmd baseUrl initial) of
        (res, st) \<Rightarrow>
          (case tryBlock cmd res st of
             (Inr response, st') \<Rightarrow> (Returned response, st')
           | (Inl err, st') \<Rightarrow> catchBlock stages cmd baseUrl err st'))"

text \<open>
  \<open>run\<close>: the instance URL must be there and not empty (lines 249-252), the request must be
  built (lines 254-257), then the attempt.
\<close>

definition run :: "string list \<Rightarrow> command \<Rightarrow> creation \<Rightarrow> outcome \<times> run_state" where
  "run stages cmd c =
     (case instanceUrl cmd of
        None \<Rightarrow> (Thrown (SfError ''No instance URL found for the dev hub''), initial)
      | Some baseUrl \<Rightarrow>
          if baseUrl = [] then (Thrown (SfError ''No instance URL found for the dev hub''), initial)
          else (case requestError cmd of
                  Some e \<Rightarrow> (Thrown e, initial)
                | None \<Rightarrow> attempt stages cmd baseUrl c))"





text \<open>Example inputs: a stage list, commands in both modes, a result and a timeout error.\<close>

definition sdkStages :: "string list" where
  "sdkStages = [''prepare request'', ''send request'', ''wait for org'', ''available'',
                ''authenticate'', ''deploy settings'', ''done'']"

definition stageEvent :: "string \<Rightarrow> lifecycle_event" where
  "stageEvent s = \<lparr>stage = s, scratchOrgInfo = None\<rparr>"

definition syncCmd :: command where
  "syncCmd = \<lparr>async = False, instanceUrl = Some ''https://hub.my.salesforce.com'',
              requestError = None, bin = ''sf''\<rparr>"

definition asyncCmd :: command where
  "asyncCmd = syncCmd\<lparr>async := True\<rparr>"

definition orgInfo :: scratch_org_info where
  "orgInfo = \<lparr>Id' = Some ''2SR000000000001'', ScratchOrg = Some ''00D000000000002'',
              SignupUsername = Some ''test-abc@example.com''\<rparr>"

definition created :: create_result where
  "created = \<lparr>res_username = Some ''test-abc@example.com'', res_scratchOrgInfo = Some orgInfo,
              res_authFields = Some \<lparr>authOrgId = Some ''00D000000000002''\<rparr>, res_warnings = []\<rparr>"

definition timeoutError :: js_error where
  "timeoutError = \<lparr>instanceofSfError = True, errName = ''ScratchOrgInfoTimeoutError'',
                   errMessage = ''The scratch org did not complete within your wait time'',
                   errData = Some ''0Rxxx''\<rparr>"

section \<open>Properties of the poller and of the open operation\<close>

declare checkLightningDomain.simps [simp del]

lemma attempts_append [simp]: "attempts (xs @ ys) = attempts xs + attempts ys"
  by (simp add: attempts_def)

lemma attempts_simps [simp]:
  "attempts [] = 0"
  "attempts (DnsLookup d # tr) = Suc (attempts tr)"
  "attempts (StartSpinner m # tr) = attempts tr"
  "attempts (StopSpinner # tr) = attempts tr"
  "attempts (Sleep n # tr) = attempts tr"
  "attempts (OpenBrowser u # tr) = attempts tr"
  by (simp_all add: attempts_def)

text \<open>
  When every lookup fails and the budget is \<open>N\<close>, a poller that has reached retry \<open>r\<close>
  (\<open>0 < r \<le> N\<close>) makes \<open>N - r\<close> more rounds of lookup and sleep, a last lookup, stops the
  spinner and rejects with the error of that last lookup.
\<close>

lemma exhausted_from:
  assumes retries: "getDomainRetries s = int N"
    and fails: "\<forall>k. isl (lookup s k (myDomain @ ''.lightning.force.com''))"
  shows "r \<le> N \<Longrightarrow> 0 < r \<Longrightarrow>
    checkLightningDomain s myDomain r tr =
      (Inl (projl (lookup s (attempts tr + (N - r)) (myDomain @ ''.lightning.force.com''))),
       tr @ concat (replicate (N - r) [DnsLookup (myDomain @ ''.lightning.force.com''), Sleep 1])
          @ [DnsLookup (myDomain @ ''.lightning.force.com''), StopSpinner])"
proof (induction "N - r" arbitrary: r tr)
  case 0
  then have "r = N" by simp
  moreover obtain e where "lookup s (attempts tr) (myDomain @ ''.lightning.force.com'') = Inl e"
    using fails by (metis isl_def)
  ultimately show ?case
    using retries by (subst checkLightningDomain.simps) (simp add: checkDns_def)
next
  case (Suc m)
  then have lt: "r < N" and m: "m = N - Suc r" by simp_all
  obtain e where e: "lookup s (attempts tr) (myDomain @ ''.lightning.force.com'') = Inl e"
    using fails by (metis isl_def)
  have step: "checkLightningDomain s myDomain r tr =
      checkLightningDomain s myDomain (Suc r)
        (tr @ [DnsLookup (myDomain @ ''.lightning.force.com''), Sleep 1])"
    using retries lt e Suc.prems
    by (subst checkLightningDomain.simps) (simp add: checkDns_def delay_def)
  have "N - r = Suc (N - Suc r)" using lt by simp
  then show ?case
    using Suc.hyps(1) [of "Suc r" "tr @ [DnsLookup (myDomain @ ''.lightning.force.com''), Sleep 1]"] m lt step
    by simp
qed

text \<open>The whole trace of a fresh polling session that runs out of budget.\<close>

lemma exhausted_trace:
  assumes retries: "getDomainRetries s = int N"
    and fails: "\<forall>k. isl (lookup s k (myDomain @ ''.lightning.force.com''))"
  shows "checkLightningDomain s myDomain 0 [] =
      (Inl (projl (lookup s N (myDomain @ ''.lightning.force.com''))),
       (if N = 0 then []
        else [DnsLookup (myDomain @ ''.lightning.force.com''),
              StartSpinner (getMessage ''openCommandDomainWaiting''), Sleep 1]
             @ concat (replicate (N - 1) [DnsLookup (myDomain @ ''.lightning.force.com''), Sleep 1]))
       @ [DnsLookup (myDomain @ ''.lightning.force.com''), StopSpinner])"
proof (cases "N = 0")
  case True
  obtain e where "lookup s 0 (myDomain @ ''.lightning.force.com'') = Inl e"
    using fails by (metis isl_def)
  then show ?thesis
    using retries True by (subst checkLightningDomain.simps) (simp add: checkDns_def)
next
  case False
  obtain e where e: "lookup s 0 (myDomain @ ''.lightning.force.com'') = Inl e"
    using fails by (metis isl_def)
  have "checkLightningDomain s myDomain 0 [] =
      checkLightningDomain s myDomain (Suc 0)
        [DnsLookup (myDomain @ ''.lightning.force.com''),
         StartSpinner (getMessage ''openCommandDomainWaiting''), Sleep 1]"
    using retries False e
    by (subst checkLightningDomain.simps) (simp add: checkDns_def delay_def)
  moreover have "Suc 0 \<le> N" using False by simp
  ultimately show ?thesis
    using exhausted_from [OF retries fails, of "Suc 0"] False by simp
qed

text \<open>
  A budget below 0 behaves like a budget of 0 inside the poller: the first failed lookup is
  the last one.
\<close>

lemma negative_budget_one_lookup:
  assumes "getDomainRetries s < 0"
    and "lookup s 0 (myDomain @ ''.lightning.force.com'') = Inl e"
  shows "checkLightningDomain s myDomain 0 [] =
     (Inl e, [DnsLookup (myDomain @ ''.lightning.force.com''), StopSpinner])"
  using assms by (subst checkLightningDomain.simps) (simp add: checkDns_def)

lemma count_rounds:
  "attempts (concat (replicate n [DnsLookup d, Sleep k])) = n"
  by (induction n) simp_all

lemma filter_rounds:
  "filter lookupOrSleep (concat (replicate n [DnsLookup d, Sleep k])) =
     concat (replicate n [DnsLookup d, Sleep k])"
  by (induction n) simp_all

lemma replicate_rounds_Suc:
  "0 < n \<Longrightarrow> DnsLookup d # Sleep k # concat (replicate (n - Suc 0) [DnsLookup d, Sleep k]) =
     concat (replicate n [DnsLookup d, Sleep k])"
  by (cases n) simp_all

lemma matchMyDomain_acme: "matchMyDomain (url acme) = Some ''acme''"
  by (simp add: acme_def)

lemma retries_offline: "getDomainRetries offline = 2"
  by (simp add: getDomainRetries_def offline_def)

lemma retries_noRetry: "getDomainRetries noRetry = 0"
  by (simp add: getDomainRetries_def noRetry_def offline_def)

lemma retries_slowDns: "getDomainRetries slowDns = 240"
  by (simp add: getDomainRetries_def slowDns_def)

text \<open>
  Whatever happens during the check, the result of \<open>open.open\<close> is the result of \<open>act\<close>: the
  operation has no path on which it rejects with the error built at lines 142-144.
\<close>

lemma open_open_result_is_act:
  "\<exists>tr'. open_open s retVal urlOnly tr = act s urlOnly retVal tr'"
  by (auto simp: open_open_def split: prod.splits sum.splits)

text \<open>
  Claim C1. The claim: when the retry budget is exhausted, the open operation fails with the
  error named \<open>openCommandDomainTimeoutError\<close>, and the caller sees that failure. The code, run
  on a network where no lookup succeeds and with a budget of two retries: the poller rejects
  with the error of its third lookup, the inner handler replaces it by the timeout error,
  and the outer handler of lines 146-149 catches that error; the browser is opened and the
  operation returns its value as if the domain had resolved.
\<close>

theorem open_absorbs_domain_timeout:
  "checkLightningDomain offline ''acme'' 0 [] =
     (Inl (LookupError ''ENOTFOUND''),
      [DnsLookup ''acme.lightning.force.com'',
       StartSpinner (Message ''openCommandDomainWaiting'' []), Sleep 1,
       DnsLookup ''acme.lightning.force.com'', Sleep 1,
       DnsLookup ''acme.lightning.force.com'', StopSpinner])
   \<and> fst (innerTry offline (url acme) []) = Inl domainTimeoutError
   \<and> open_open offline acme False [] =
     (Inr acme,
      [DnsLookup ''acme.lightning.force.com'',
       StartSpinner (Message ''openCommandDomainWaiting'' []), Sleep 1,
       DnsLookup ''acme.lightning.force.com'', Sleep 1,
       DnsLookup ''acme.lightning.force.com'', StopSpinner,
       OpenBrowser (url acme)])"
proof -
  have f: "\<forall>k. isl (lookup offline k (''acme'' @ ''.lightning.force.com''))"
    by (simp add: offline_def)
  have l: "projl (lookup offline 2 (''acme'' @ ''.lightning.force.com'')) = LookupError ''ENOTFOUND''"
    by (simp add: offline_def)
  have p: "checkLightningDomain offline ''acme'' 0 [] =
     (Inl (LookupError ''ENOTFOUND''),
      [DnsLookup ''acme.lightning.force.com'',
       StartSpinner (Message ''openCommandDomainWaiting'' []), Sleep 1,
       DnsLookup ''acme.lightning.force.com'', Sleep 1,
       DnsLookup ''acme.lightning.force.com'', StopSpinner])"
    using exhausted_trace [of offline 2 "''acme''"] f l retries_offline
    by (simp add: getMessage_def)
  have i: "innerTry offline (url acme) [] =
     (Inl domainTimeoutError, snd (checkLightningDomain offline ''acme'' 0 []))"
    by (simp add: innerTry_def tryBody_def matchMyDomain_acme p)
  have n: "\<not> isInternalUrl offline (url acme)" by (simp add: offline_def)
  show ?thesis
    using retries_offline n
    by (simp add: p i open_open_def act_def) (simp add: offline_def)
qed

text \<open>
  Claim C2. With a budget of \<open>N\<close> retries and a resolver that fails on every call, a fresh
  polling session makes exactly \<open>N + 1\<close> lookups; its lookups and sleeps, in order, are \<open>N\<close>
  times a lookup followed by a sleep of one second, and then the last lookup; the poller
  rejects with the error of that last lookup, and the inner handler of the open operation
  raises the timeout error in its place. With a budget of 0 the open operation goes straight
  to \<open>act\<close> and makes no lookup.
\<close>

theorem poller_exhaustion:
  "(getDomainRetries s = int N \<and> (\<forall>k. isl (lookup s k (myDomain @ ''.lightning.force.com'')))
     \<longrightarrow> fst (checkLightningDomain s myDomain 0 []) =
           Inl (projl (lookup s N (myDomain @ ''.lightning.force.com'')))
       \<and> attempts (snd (checkLightningDomain s myDomain 0 [])) = N + 1
       \<and> filter lookupOrSleep (snd (checkLightningDomain s myDomain 0 [])) =
           concat (replicate N [DnsLookup (myDomain @ ''.lightning.force.com''), Sleep 1])
           @ [DnsLookup (myDomain @ ''.lightning.force.com'')]
       \<and> (matchMyDomain u = Some myDomain \<longrightarrow>
            innerTry s u [] = (Inl domainTimeoutError, snd (checkLightningDomain s myDomain 0 []))))
   \<and> (getDomainRetries s = 0 \<longrightarrow>
        open_open s retVal urlOnly tr = act s urlOnly retVal tr
        \<and> attempts (snd (open_open s retVal urlOnly tr)) = attempts tr)"
proof (intro conjI impI)
  assume h: "getDomainRetries s = int N \<and> (\<forall>k. isl (lookup s k (myDomain @ ''.lightning.force.com'')))"
  note tr = exhausted_trace [of s N myDomain, OF conjunct1 [OF h] conjunct2 [OF h]]
  show "fst (checkLightningDomain s myDomain 0 []) =
           Inl (projl (lookup s N (myDomain @ ''.lightning.force.com'')))"
    by (simp add: tr)
  show "attempts (snd (checkLightningDomain s myDomain 0 [])) = N + 1"
    by (simp add: tr count_rounds)
  show "filter lookupOrSleep (snd (checkLightningDomain s myDomain 0 [])) =
           concat (replicate N [DnsLookup (myDomain @ ''.lightning.force.com''), Sleep 1])
           @ [DnsLookup (myDomain @ ''.lightning.force.com'')]"
    by (simp add: tr filter_rounds replicate_rounds_Suc)
  show "innerTry s u [] = (Inl domainTimeoutError, snd (checkLightningDomain s myDomain 0 []))"
    if "matchMyDomain u = Some myDomain"
    using that by (simp add: innerTry_def tryBody_def tr)
next
  assume z: "getDomainRetries s = 0"
  show "open_open s retVal urlOnly tr = act s urlOnly retVal tr"
    using z by (simp add: open_open_def)
  then show "attempts (snd (open_open s retVal urlOnly tr)) = attempts tr"
    by (simp add: act_def split: option.splits)
qed

theorem poller_exhaustion_witness:
  "getDomainRetries offline = int 2
   \<and> (\<forall>k. isl (lookup offline k (''acme'' @ ''.lightning.force.com'')))
   \<and> matchMyDomain (url acme) = Some ''acme''
   \<and> fst (checkLightningDomain offline ''acme'' 0 []) = Inl (LookupError ''ENOTFOUND'')
   \<and> attempts (snd (checkLightningDomain offline ''acme'' 0 [])) = 3
   \<and> filter lookupOrSleep (snd (checkLightningDomain offline ''acme'' 0 [])) =
        [DnsLookup ''acme.lightning.force.com'', Sleep 1,
         DnsLookup ''acme.lightning.force.com'', Sleep 1,
         DnsLookup ''acme.lightning.force.com'']
   \<and> fst (innerTry offline (url acme) []) = Inl domainTimeoutError
   \<and> getDomainRetries noRetry = 0
   \<and> open_open noRetry acme False [] = (Inr acme, [OpenBrowser (url acme)])"
proof -
  have r: "getDomainRetries offline = int 2" by (simp add: retries_offline)
  have f: "\<forall>k. isl (lookup offline k (''acme'' @ ''.lightning.force.com''))"
    by (simp add: offline_def)
  have a: "act noRetry False acme [] = (Inr acme, [OpenBrowser (url acme)])"
    by (simp add: act_def noRetry_def offline_def)
  have l: "projl (lookup offline 2 (''acme'' @ ''.lightning.force.com'')) = LookupError ''ENOTFOUND''"
    by (simp add: offline_def)
  have n2: "concat (replicate 2 [DnsLookup (''acme'' @ ''.lightning.force.com''), Sleep 1]) =
     [DnsLookup ''acme.lightning.force.com'', Sleep 1, DnsLookup ''acme.lightning.force.com'', Sleep 1]"
    by (simp add: numeral_2_eq_2)
  show ?thesis
    using poller_exhaustion [of offline 2 "''acme''" "url acme" acme False "[]"]
      poller_exhaustion [of noRetry 0 "''acme''" "url acme" acme False "[]"]
      r f a l n2 matchMyDomain_acme retries_noRetry
    by simp
qed

text \<open>
  Claim C7. When the first three lookups of a fresh session fail and the fourth succeeds,
  and the budget is at least three retries, the poller resolves; the spinner is started once,
  right after the first failed lookup, and stopped once, right after the lookup that
  succeeds.
\<close>

theorem poller_recovers:
  "isl (lookup s 0 (myDomain @ ''.lightning.force.com''))
   \<and> isl (lookup s 1 (myDomain @ ''.lightning.force.com''))
   \<and> isl (lookup s 2 (myDomain @ ''.lightning.force.com''))
   \<and> \<not> isl (lookup s 3 (myDomain @ ''.lightning.force.com''))
   \<and> 3 \<le> getDomainRetries s
   \<longrightarrow> checkLightningDomain s myDomain 0 [] =
         (Inr (),
          [DnsLookup (myDomain @ ''.lightning.force.com''),
           StartSpinner (getMessage ''openCommandDomainWaiting''), Sleep 1,
           DnsLookup (myDomain @ ''.lightning.force.com''), Sleep 1,
           DnsLookup (myDomain @ ''.lightning.force.com''), Sleep 1,
           DnsLookup (myDomain @ ''.lightning.force.com''), StopSpinner])
       \<and> filter isSpinner (snd (checkLightningDomain s myDomain 0 [])) =
           [StartSpinner (getMessage ''openCommandDomainWaiting''), StopSpinner]"
proof (intro impI)
  let ?d = "myDomain @ ''.lightning.force.com''"
  assume h: "isl (lookup s 0 ?d) \<and> isl (lookup s 1 ?d) \<and> isl (lookup s 2 ?d)
     \<and> \<not> isl (lookup s 3 ?d) \<and> 3 \<le> getDomainRetries s"
  obtain e0 e1 e2 ip where l:
    "lookup s 0 ?d = Inl e0" "lookup s (Suc 0) ?d = Inl e1" "lookup s (Suc (Suc 0)) ?d = Inl e2"
    "lookup s (Suc (Suc (Suc 0))) ?d = Inr ip"
    using h by (cases "lookup s 0 ?d"; cases "lookup s 1 ?d"; cases "lookup s 2 ?d";
      cases "lookup s 3 ?d") (auto simp: numeral_2_eq_2 numeral_3_eq_3)
  have r: "3 \<le> getDomainRetries s" using h by simp
  have s0: "checkLightningDomain s myDomain 0 [] =
      checkLightningDomain s myDomain (Suc 0)
        [DnsLookup ?d, StartSpinner (getMessage ''openCommandDomainWaiting''), Sleep 1]"
    using l r by (subst checkLightningDomain.simps) (simp add: checkDns_def delay_def)
  have s1: "checkLightningDomain s myDomain (Suc 0)
        [DnsLookup ?d, StartSpinner (getMessage ''openCommandDomainWaiting''), Sleep 1] =
      checkLightningDomain s myDomain (Suc (Suc 0))
        [DnsLookup ?d, StartSpinner (getMessage ''openCommandDomainWaiting''), Sleep 1,
         DnsLookup ?d, Sleep 1]"
    using l r by (subst checkLightningDomain.simps) (simp add: checkDns_def delay_def)
  have s2: "checkLightningDomain s myDomain (Suc (Suc 0))
        [DnsLookup ?d, StartSpinner (getMessage ''openCommandDomainWaiting''), Sleep 1,
         DnsLookup ?d, Sleep 1] =
      checkLightningDomain s myDomain (Suc (Suc (Suc 0)))
        [DnsLookup ?d, StartSpinner (getMessage ''openCommandDomainWaiting''), Sleep 1,
         DnsLookup ?d, Sleep 1, DnsLookup ?d, Sleep 1]"
    using l r by (subst checkLightningDomain.simps) (simp add: checkDns_def delay_def)
  have s3: "checkLightningDomain s myDomain (Suc (Suc (Suc 0)))
        [DnsLookup ?d, StartSpinner (getMessage ''openCommandDomainWaiting''), Sleep 1,
         DnsLookup ?d, Sleep 1, DnsLookup ?d, Sleep 1] =
      (Inr (),
        [DnsLookup ?d, StartSpinner (getMessage ''openCommandDomainWaiting''), Sleep 1,
         DnsLookup ?d, Sleep 1, DnsLookup ?d, Sleep 1, DnsLookup ?d, StopSpinner])"
    using l by (subst checkLightningDomain.simps) (simp add: checkDns_def)
  show "checkLightningDomain s myDomain 0 [] =
         (Inr (),
          [DnsLookup ?d, StartSpinner (getMessage ''openCommandDomainWaiting''), Sleep 1,
           DnsLookup ?d, Sleep 1, DnsLookup ?d, Sleep 1, DnsLookup ?d, StopSpinner])
       \<and> filter isSpinner (snd (checkLightningDomain s myDomain 0 [])) =
           [StartSpinner (getMessage ''openCommandDomainWaiting''), StopSpinner]"
    by (simp add: trans [OF s0 trans [OF s1 trans [OF s2 s3]]])
qed

theorem poller_recovers_witness:
  "isl (lookup slowDns 0 (''acme'' @ ''.lightning.force.com''))
   \<and> isl (lookup slowDns 1 (''acme'' @ ''.lightning.force.com''))
   \<and> isl (lookup slowDns 2 (''acme'' @ ''.lightning.force.com''))
   \<and> \<not> isl (lookup slowDns 3 (''acme'' @ ''.lightning.force.com''))
   \<and> 3 \<le> getDomainRetries slowDns
   \<and> checkLightningDomain slowDns ''acme'' 0 [] =
         (Inr (),
          [DnsLookup ''acme.lightning.force.com'',
           StartSpinner (Message ''openCommandDomainWaiting'' []), Sleep 1,
           DnsLookup ''acme.lightning.force.com'', Sleep 1,
           DnsLookup ''acme.lightning.force.com'', Sleep 1,
           DnsLookup ''acme.lightning.force.com'', StopSpinner])"
proof -
  have l: "isl (lookup slowDns 0 (''acme'' @ ''.lightning.force.com''))
   \<and> isl (lookup slowDns 1 (''acme'' @ ''.lightning.force.com''))
   \<and> isl (lookup slowDns 2 (''acme'' @ ''.lightning.force.com''))
   \<and> \<not> isl (lookup slowDns 3 (''acme'' @ ''.lightning.force.com''))"
    by (simp add: slowDns_def)
  have r: "3 \<le> getDomainRetries slowDns" by (simp add: retries_slowDns)
  show ?thesis
    using poller_recovers [of slowDns "''acme''"] l r by (simp add: getMessage_def)
qed

text \<open>
  Claim C8. When the target URL is classified internal, the open operation is exactly
  \<open>act\<close>: it makes no lookup at all.
\<close>

theorem internal_url_skips_resolver:
  "isInternalUrl s (url retVal) \<longrightarrow>
     open_open s retVal urlOnly tr = act s urlOnly retVal tr
     \<and> attempts (snd (open_open s retVal urlOnly tr)) = attempts tr"
  by (simp add: open_open_def act_def split: option.splits)

theorem internal_url_skips_resolver_witness:
  "isInternalUrl internalOrg (url acme)
   \<and> open_open internalOrg acme False [] = (Inr acme, [OpenBrowser (url acme)])
   \<and> attempts (snd (open_open internalOrg acme False [])) = 0"
proof -
  have i: "isInternalUrl internalOrg (url acme)" by (simp add: internalOrg_def)
  have a: "act internalOrg False acme [] = (Inr acme, [OpenBrowser (url acme)])"
    by (simp add: act_def internalOrg_def offline_def)
  show ?thesis
    using internal_url_skips_resolver [of internalOrg acme False "[]"] i a by simp
qed

section \<open>Properties of the status view and of the creation command\<close>

subsection \<open>Completed stages\<close>

lemma indexOf_first: "i < length xs \<Longrightarrow> xs ! i = x \<Longrightarrow> indexOf xs x \<le> int i"
proof (induction xs arbitrary: i)
  case Nil
  then show ?case by simp
next
  case (Cons y ys)
  show ?case
  proof (cases i)
    case 0
    with Cons.prems show ?thesis by simp
  next
    case (Suc j)
    with Cons.prems Cons.IH [of j] show ?thesis by (simp add: Let_def)
  qed
qed

text \<open>
  The rows of a tail \<open>ys\<close> of the stage list that starts at position \<open>k\<close>: the completed ones
  are those before the position of the current stage, provided the current stage does not
  occur in \<open>ys\<close> before that position (it never does: \<open>indexOf\<close> is the first occurrence).
\<close>

lemma completedOf_rows:
  "(\<forall>j < length ys. ys ! j = cur \<longrightarrow> indexOf stages cur \<le> int (k + j)) \<Longrightarrow>
   completedOf (map (stageRow stages cur err) (enumerate k ys)) =
     take (nat (indexOf stages cur - int k)) ys"
proof (induction ys arbitrary: k)
  case Nil
  then show ?case by simp
next
  case (Cons y ys)
  have rest: "\<forall>j < length ys. ys ! j = cur \<longrightarrow> indexOf stages cur \<le> int (Suc k + j)"
  proof (intro allI impI)
    fix j assume "j < length ys" "ys ! j = cur"
    then show "indexOf stages cur \<le> int (Suc k + j)"
      using Cons.prems [rule_format, of "Suc j"] by simp
  qed
  note IH = Cons.IH [OF rest]
  have hd: "y = cur \<Longrightarrow> indexOf stages cur \<le> int k"
    using Cons.prems [rule_format, of 0] by simp
  show ?case
  proof (cases "indexOf stages cur > int k")
    case True
    then have "y \<noteq> cur" using hd by auto
    then have row: "stageRow stages cur err (k, y) = Some (CompletedStage y)"
      using True by (simp add: stageRow_def)
    have "nat (indexOf stages cur - int k) = Suc (nat (indexOf stages cur - int (Suc k)))"
      using True by simp
    then show ?thesis using IH by (simp add: row)
  next
    case False
    then have row: "completedOf (stageRow stages cur err (k, y) # rows) = completedOf rows" for rows
      by (simp add: stageRow_def)
    have "nat (indexOf stages cur - int k) = 0" "nat (indexOf stages cur - int (Suc k)) = 0"
      using False by simp_all
    then show ?thesis using IH by (simp add: row)
  qed
qed

lemma completedOf_Status:
  "map_option (completedOf \<circ> stageRows) (Status stages (Some d) baseUrl err) =
     Some (take (nat (indexOf stages (stage d))) stages)"
  using completedOf_rows [of stages "stage d" stages 0 err] indexOf_first [of _ stages "stage d"]
  by (simp add: Status_def)

lemma preceding_enumerate:
  "map snd (filter (\<lambda>p. int (fst p) < m) (enumerate k ys)) = take (nat (m - int k)) ys"
proof (induction ys arbitrary: k)
  case Nil
  show ?case by simp
next
  case (Cons y ys)
  show ?case
  proof (cases "int k < m")
    case True
    then have "nat (m - int k) = Suc (nat (m - int (Suc k)))" by simp
    then show ?thesis using True Cons.IH [of "Suc k"] by simp
  next
    case False
    then have "nat (m - int k) = 0" "nat (m - int (Suc k)) = 0" by simp_all
    then show ?thesis using False Cons.IH [of "Suc k"] by simp
  qed
qed

lemma precedingStages_take:
  "precedingStages stages current = take (nat (indexOf stages current)) stages"
  using preceding_enumerate [of "indexOf stages current" 0 stages]
  by (simp add: precedingStages_def)

subsection \<open>The rendering surface\<close>

lemma render_simps [simp]:
  "calls (render n) = []" "mounted (render n)" "frames (render n) = [n]"
  by (simp_all add: render_def)

lemma rerender_simps [simp]:
  "calls (rerender n i) = calls i @ [Rerender n]"
  "mounted (rerender n i) = mounted i"
  "frames (rerender n i) = (if mounted i then frames i @ [n] else frames i)"
  by (simp_all add: rerender_def)

lemma unmount_simps [simp]:
  "calls (unmount i) = calls i @ [Unmount]"
  "mounted (unmount i) = False"
  "frames (unmount i) = frames i"
  by (simp_all add: unmount_def)

lemma clear_simps [simp]:
  "calls (clear i) = calls i @ [Clear]"
  "mounted (clear i) = mounted i"
  "frames (clear i) = frames i"
  by (simp_all add: clear_def)

lemma rerenders_append [simp]: "rerenders (xs @ ys) = rerenders xs @ rerenders ys"
  by (induction xs rule: rerenders.induct) simp_all

lemma unmountCalls_append [simp]: "unmountCalls (xs @ ys) = unmountCalls xs + unmountCalls ys"
  by (induction xs rule: unmountCalls.induct) simp_all

subsection \<open>The lifecycle callback\<close>

lemma initial_simps [simp]:
  "asyncInstance initial = None" "statusInstance initial = None"
  "scratchOrgLifecycleData initial = None" "\<not> subscribed initial" "printed initial = []"
  by (simp_all add: initial_def)

lemma callback_simps [simp]:
  "subscribed (callback stages baseUrl d st) = subscribed st"
  "asyncInstance (callback stages baseUrl d st) = asyncInstance st"
  "printed (callback stages baseUrl d st) = printed st"
  "scratchOrgLifecycleData (callback stages baseUrl d st) = Some d"
  by (simp_all add: callback_def Let_def)

lemma callback_status:
  "statusInstance (callback stages baseUrl d st) =
     map_option
       (\<lambda>i. if stage d = ''done''
            then unmount (rerender (StatusNode (Status stages (Some d) baseUrl None)) i)
            else rerender (StatusNode (Status stages (Some d) baseUrl None)) i)
       (statusInstance st)"
  by (simp add: callback_def Let_def option.map_comp comp_def)

lemma emit_subscribed: "subscribed st \<Longrightarrow> emit stages baseUrl d st = callback stages baseUrl d st"
  by (simp add: emit_def)

lemma emit_unsubscribed: "\<not> subscribed st \<Longrightarrow> emit stages baseUrl d st = st"
  by (simp add: emit_def)

lemma fold_emit_unsubscribed:
  "\<not> subscribed st \<Longrightarrow> fold (emit stages baseUrl) evs st = st"
  by (induction evs) (simp_all add: emit_unsubscribed)

lemma fold_emit_subscribed [simp]:
  "subscribed (fold (emit stages baseUrl) evs st) = subscribed st"
proof (induction evs arbitrary: st)
  case Nil
  show ?case by simp
next
  case (Cons d evs)
  then show ?case by (cases "subscribed st") (simp_all add: emit_subscribed emit_unsubscribed)
qed

lemma fold_emit_asyncInstance [simp]:
  "asyncInstance (fold (emit stages baseUrl) evs st) = asyncInstance st"
proof (induction evs arbitrary: st)
  case Nil
  show ?case by simp
next
  case (Cons d evs)
  then show ?case by (cases "subscribed st") (simp_all add: emit_subscribed emit_unsubscribed)
qed

lemma fold_emit_printed [simp]:
  "printed (fold (emit stages baseUrl) evs st) = printed st"
proof (induction evs arbitrary: st)
  case Nil
  show ?case by simp
next
  case (Cons d evs)
  then show ?case by (cases "subscribed st") (simp_all add: emit_subscribed emit_unsubscribed)
qed

text \<open>Every event delivered to the callback is one \<open>rerender\<close> call with the view of that event.\<close>

lemma fold_emit_rerenders:
  "subscribed st \<Longrightarrow>
   map_option (rerenders \<circ> calls) (statusInstance (fold (emit stages baseUrl) evs st)) =
   map_option (\<lambda>i. rerenders (calls i) @ map (\<lambda>d. StatusNode (Status stages (Some d) baseUrl None)) evs)
     (statusInstance st)"
proof (induction evs arbitrary: st)
  case Nil
  then show ?case by (simp add: comp_def)
next
  case (Cons d evs)
  have "subscribed (callback stages baseUrl d st)" using Cons.prems by simp
  from Cons.IH [OF this] show ?case
    using Cons.prems
    by (cases "statusInstance st"; cases "stage d = ''done''")
       (simp_all add: emit_subscribed callback_status)
qed


text \<open>Once the status view is unmounted, no event draws a frame or mounts it again.\<close>

lemma fold_emit_inert:
  "subscribed st \<Longrightarrow> \<forall>i. statusInstance st = Some i \<longrightarrow> \<not> mounted i \<Longrightarrow>
   map_option frames (statusInstance (fold (emit stages baseUrl) evs st)) =
     map_option frames (statusInstance st)
   \<and> map_option mounted (statusInstance (fold (emit stages baseUrl) evs st)) =
     map_option (\<lambda>i. False) (statusInstance st)"
proof (induction evs arbitrary: st)
  case Nil
  then show ?case by (cases "statusInstance st") simp_all
next
  case (Cons d evs)
  have sub: "subscribed (callback stages baseUrl d st)" using Cons.prems by simp
  have dead: "\<forall>i. statusInstance (callback stages baseUrl d st) = Some i \<longrightarrow> \<not> mounted i"
    using Cons.prems by (auto simp: callback_status)
  have same: "map_option frames (statusInstance (callback stages baseUrl d st)) =
      map_option frames (statusInstance st)"
    using Cons.prems by (cases "statusInstance st") (simp_all add: callback_status)
  have opt: "map_option (\<lambda>i. False) (statusInstance (callback stages baseUrl d st)) =
      map_option (\<lambda>i. False) (statusInstance st)"
    by (cases "statusInstance st") (simp_all add: callback_status)
  from Cons.IH [OF sub dead] show ?case
    using Cons.prems(1) by (simp add: same opt emit_subscribed)
qed


subsection \<open>One creation attempt\<close>

lemma startRendering_async:
  "async cmd \<Longrightarrow>
   startRendering stages cmd baseUrl initial =
     initial\<lparr>asyncInstance := Some (render (SpinnerNode asyncLabel))\<rparr>"
  by (simp add: startRendering_def)

lemma tryBlock_status [simp]:
  "statusInstance (snd (tryBlock cmd res st)) = statusInstance st"
  by (simp add: tryBlock_def Let_def split: sum.splits option.splits)

lemma tryBlock_subscribed [simp]:
  "subscribed (snd (tryBlock cmd res st)) = subscribed st"
  by (simp add: tryBlock_def Let_def split: sum.splits option.splits)

lemma tryBlock_sync_async [simp]:
  "\<not> async cmd \<Longrightarrow> asyncInstance (snd (tryBlock cmd res st)) = asyncInstance st"
  by (simp add: tryBlock_def Let_def split: sum.splits option.splits)

lemma tryBlock_rejected: "tryBlock cmd (Inl e) st = (Inl e, st)"
  by (simp add: tryBlock_def)

lemma tryBlock_no_info:
  "res_scratchOrgInfo r = None \<Longrightarrow>
   tryBlock cmd (Inr r) st = (Inl (SfError ''The scratch org did not return with any information''), st)"
  by (simp add: tryBlock_def)

lemma catchBlock_status [simp]:
  "statusInstance (snd (catchBlock stages cmd baseUrl e st)) =
     map_option
       (\<lambda>i. unmount (rerender (StatusNode (Status stages (scratchOrgLifecycleData st) baseUrl (Some e))) i))
       (statusInstance st)"
  by (simp add: catchBlock_def Let_def split: option.splits)

lemma catchBlock_async [simp]:
  "asyncInstance (snd (catchBlock stages cmd baseUrl e st)) = map_option unmount (asyncInstance st)"
  by (simp add: catchBlock_def Let_def split: option.splits)

lemma catchBlock_subscribed [simp]:
  "subscribed (snd (catchBlock stages cmd baseUrl e st)) = subscribed st"
  by (simp add: catchBlock_def Let_def split: option.splits)

lemma catchBlock_isFailure [simp]:
  "isFailure (fst (catchBlock stages cmd baseUrl e st))"
  by (simp add: catchBlock_def Let_def split: option.splits)

lemma run_attempt:
  "instanceUrl cmd = Some baseUrl \<Longrightarrow> baseUrl \<noteq> [] \<Longrightarrow> requestError cmd = None \<Longrightarrow>
   run stages cmd c = attempt stages cmd baseUrl c"
  by (simp add: run_def)


text \<open>
  The final state of an attempt with \<open>--async\<close>: only the async indicator exists, and it has
  been unmounted, by the \<open>try\<close> block on success and by the \<open>catch\<close> block otherwise.
\<close>

lemma attempt_async:
  assumes "async cmd"
  shows "snd (attempt stages cmd baseUrl c) =
     initial\<lparr>asyncInstance :=
                (if isFailure (fst (attempt stages cmd baseUrl c))
                 then Some (unmount (render (SpinnerNode asyncLabel)))
                 else Some (unmount (clear (render (SpinnerNode asyncLabel))))),
             printed := printed (snd (attempt stages cmd baseUrl c))\<rparr>"
proof -
  have ns: "\<not> subscribed (startRendering stages cmd baseUrl initial)"
    using assms by (simp add: startRendering_def)
  have st: "fold (emit stages baseUrl) (emitted c) (startRendering stages cmd baseUrl initial) =
      initial\<lparr>asyncInstance := Some (render (SpinnerNode asyncLabel))\<rparr>"
    using fold_emit_unsubscribed [OF ns] startRendering_async [OF assms] by simp
  show ?thesis
    using assms
    by (simp add: attempt_def scratchOrgCreate_def st tryBlock_def catchBlock_def Let_def
        split: sum.splits option.splits)
qed





text \<open>
  Outside the contract of the creation call the teardown is not the command's own doing on
  every path: without \<open>--async\<close>, were the call to resolve with the org info and no \<open>done\<close>
  event, the status view would still be mounted at the return, since the success branch of
  the \<open>try\<close> block (lines 290-292) makes no \<open>unmount\<close> call; and were it to resolve without
  the org info after a \<open>done\<close> event, the callback and the \<open>catch\<close> block would both call
  \<open>unmount\<close>.
\<close>

lemma success_without_done_stays_mounted:
  "map_option mounted (statusInstance (snd (attempt sdkStages syncCmd ''https://hub.my.salesforce.com''
         \<lparr>emitted = [stageEvent ''prepare request''], settled = Inr created\<rparr>))) = Some True"
  by (simp add: attempt_def scratchOrgCreate_def startRendering_def syncCmd_def emit_def callback_def
      stageEvent_def tryBlock_def created_def Let_def)

lemma missing_info_after_done_unmounts_twice:
  "map_option (unmountCalls \<circ> calls)
     (statusInstance (snd (attempt sdkStages syncCmd ''https://hub.my.salesforce.com''
         \<lparr>emitted = [stageEvent ''done''],
          settled = Inr (created\<lparr>res_scratchOrgInfo := None\<rparr>)\<rparr>))) = Some 2"
  by (simp add: attempt_def scratchOrgCreate_def startRendering_def syncCmd_def emit_def callback_def
      stageEvent_def tryBlock_def catchBlock_def created_def Let_def SfError_def)

subsection \<open>The claims about the creation command\<close>



text \<open>
  Claim C4. Once an event with stage \<open>done\<close> has reached the callback, the status view is
  unmounted, and whatever events follow, it stays unmounted and no further frame of it is
  drawn. The callback stays registered and goes on calling \<open>rerender\<close>, once per event: it is
  the unmounted view that makes the subscription inert.
\<close>

theorem done_makes_tracker_inert:
  "stage d = ''done'' \<and> subscribed st \<longrightarrow>
     map_option frames (statusInstance (fold (emit stages baseUrl) evs (emit stages baseUrl d st))) =
       map_option frames (statusInstance (emit stages baseUrl d st))
     \<and> map_option mounted (statusInstance (fold (emit stages baseUrl) evs (emit stages baseUrl d st))) =
       map_option (\<lambda>i. False) (statusInstance st)
     \<and> subscribed (fold (emit stages baseUrl) evs (emit stages baseUrl d st))
     \<and> map_option (rerenders \<circ> calls)
         (statusInstance (fold (emit stages baseUrl) evs (emit stages baseUrl d st))) =
       map_option
         (\<lambda>i. rerenders (calls i) @ map (\<lambda>d. StatusNode (Status stages (Some d) baseUrl None)) evs)
         (statusInstance (emit stages baseUrl d st))"
proof (intro impI)
  assume h: "stage d = ''done'' \<and> subscribed st"
  then have e: "emit stages baseUrl d st = callback stages baseUrl d st"
    by (simp add: emit_subscribed)
  have sub: "subscribed (callback stages baseUrl d st)" using h by simp
  have dead: "\<forall>i. statusInstance (callback stages baseUrl d st) = Some i \<longrightarrow> \<not> mounted i"
    using h by (auto simp: callback_status)
  have opt: "map_option (\<lambda>i. False) (statusInstance (callback stages baseUrl d st)) =
      map_option (\<lambda>i. False) (statusInstance st)"
    by (cases "statusInstance st") (simp_all add: callback_status)
  have drawn: "map_option frames (statusInstance (fold (emit stages baseUrl) evs (emit stages baseUrl d st))) =
       map_option frames (statusInstance (emit stages baseUrl d st))
     \<and> map_option mounted (statusInstance (fold (emit stages baseUrl) evs (emit stages baseUrl d st))) =
       map_option (\<lambda>i. False) (statusInstance st)
     \<and> subscribed (fold (emit stages baseUrl) evs (emit stages baseUrl d st))"
    using fold_emit_inert [OF sub dead, of stages baseUrl evs] h by (simp add: e opt)
  have asked: "map_option (rerenders \<circ> calls)
         (statusInstance (fold (emit stages baseUrl) evs (emit stages baseUrl d st))) =
       map_option
         (\<lambda>i. rerenders (calls i) @ map (\<lambda>d. StatusNode (Status stages (Some d) baseUrl None)) evs)
         (statusInstance (emit stages baseUrl d st))"
    unfolding e by (rule fold_emit_rerenders [OF sub])
  from drawn asked show
    "map_option frames (statusInstance (fold (emit stages baseUrl) evs (emit stages baseUrl d st))) =
       map_option frames (statusInstance (emit stages baseUrl d st))
     \<and> map_option mounted (statusInstance (fold (emit stages baseUrl) evs (emit stages baseUrl d st))) =
       map_option (\<lambda>i. False) (statusInstance st)
     \<and> subscribed (fold (emit stages baseUrl) evs (emit stages baseUrl d st))
     \<and> map_option (rerenders \<circ> calls)
         (statusInstance (fold (emit stages baseUrl) evs (emit stages baseUrl d st))) =
       map_option
         (\<lambda>i. rerenders (calls i) @ map (\<lambda>d. StatusNode (Status stages (Some d) baseUrl None)) evs)
         (statusInstance (emit stages baseUrl d st))"
    by blast
qed

theorem done_makes_tracker_inert_witness:
  "stage (stageEvent ''done'') = ''done''
   \<and> subscribed (startRendering sdkStages syncCmd ''https://hub.my.salesforce.com'' initial)
   \<and> map_option frames (statusInstance
        (fold (emit sdkStages ''https://hub.my.salesforce.com'')
           [stageEvent ''deploy settings'', stageEvent ''done'']
           (emit sdkStages ''https://hub.my.salesforce.com'' (stageEvent ''done'')
              (startRendering sdkStages syncCmd ''https://hub.my.salesforce.com'' initial)))) =
     Some [StatusNode None,
           StatusNode (Status sdkStages (Some (stageEvent ''done'')) ''https://hub.my.salesforce.com'' None)]
   \<and> map_option mounted (statusInstance
        (fold (emit sdkStages ''https://hub.my.salesforce.com'')
           [stageEvent ''deploy settings'', stageEvent ''done'']
           (emit sdkStages ''https://hub.my.salesforce.com'' (stageEvent ''done'')
              (startRendering sdkStages syncCmd ''https://hub.my.salesforce.com'' initial)))) =
     Some False"
proof -
  have d: "stage (stageEvent ''done'') = ''done''" by (simp add: stageEvent_def)
  have s: "subscribed (startRendering sdkStages syncCmd ''https://hub.my.salesforce.com'' initial)"
    by (simp add: startRendering_def syncCmd_def)
  have i: "statusInstance (startRendering sdkStages syncCmd ''https://hub.my.salesforce.com'' initial) =
      Some (render (StatusNode None))"
    by (simp add: startRendering_def syncCmd_def Status_def)
  have f: "map_option frames (statusInstance
        (emit sdkStages ''https://hub.my.salesforce.com'' (stageEvent ''done'')
           (startRendering sdkStages syncCmd ''https://hub.my.salesforce.com'' initial))) =
     Some [StatusNode None,
           StatusNode (Status sdkStages (Some (stageEvent ''done'')) ''https://hub.my.salesforce.com'' None)]"
    by (simp add: emit_subscribed [OF s] callback_status i d)
  from done_makes_tracker_inert [of "stageEvent ''done''"
        "startRendering sdkStages syncCmd ''https://hub.my.salesforce.com'' initial"
        sdkStages "''https://hub.my.salesforce.com''"
        "[stageEvent ''deploy settings'', stageEvent ''done'']"] d s
  have "map_option frames (statusInstance
        (fold (emit sdkStages ''https://hub.my.salesforce.com'')
           [stageEvent ''deploy settings'', stageEvent ''done'']
           (emit sdkStages ''https://hub.my.salesforce.com'' (stageEvent ''done'')
              (startRendering sdkStages syncCmd ''https://hub.my.salesforce.com'' initial)))) =
      map_option frames (statusInstance
        (emit sdkStages ''https://hub.my.salesforce.com'' (stageEvent ''done'')
           (startRendering sdkStages syncCmd ''https://hub.my.salesforce.com'' initial)))
    \<and> map_option mounted (statusInstance
        (fold (emit sdkStages ''https://hub.my.salesforce.com'')
           [stageEvent ''deploy settings'', stageEvent ''done'']
           (emit sdkStages ''https://hub.my.salesforce.com'' (stageEvent ''done'')
              (startRendering sdkStages syncCmd ''https://hub.my.salesforce.com'' initial)))) =
      map_option (\<lambda>i. False)
        (statusInstance (startRendering sdkStages syncCmd ''https://hub.my.salesforce.com'' initial))"
    by blast
  then show ?thesis using d s f i by simp
qed

text \<open>
  Claim C5. When the creation call rejects with an \<open>SfError\<close> named
  \<open>ScratchOrgInfoTimeoutError\<close> whose data carries a request id, the command prints the
  resume message built from the program name and that id, and nothing else, and ends
  the process with exit code 69.
\<close>

theorem creation_timeout_exits_69:
  "settled c = Inl e \<and> instanceofSfError e \<and> errName e = ''ScratchOrgInfoTimeoutError''
   \<and> errData e = Some rid
   \<and> instanceUrl cmd = Some baseUrl \<and> baseUrl \<noteq> [] \<and> requestError cmd = None
   \<longrightarrow> fst (run stages cmd c) = Exit 69 ''The scratch org did not complete within your wait time''
       \<and> printed (snd (run stages cmd c)) = [Info (Message ''action.resume'' [bin cmd, rid])]"
proof (intro impI)
  assume h: "settled c = Inl e \<and> instanceofSfError e \<and> errName e = ''ScratchOrgInfoTimeoutError''
   \<and> errData e = Some rid
   \<and> instanceUrl cmd = Some baseUrl \<and> baseUrl \<noteq> [] \<and> requestError cmd = None"
  then have r: "run stages cmd c = attempt stages cmd baseUrl c" by (simp add: run_attempt)
  have p: "printed (startRendering stages cmd baseUrl initial) = []"
    by (simp add: startRendering_def)
  show "fst (run stages cmd c) = Exit 69 ''The scratch org did not complete within your wait time''
       \<and> printed (snd (run stages cmd c)) = [Info (Message ''action.resume'' [bin cmd, rid])]"
    using h p
    by (simp add: r attempt_def scratchOrgCreate_def tryBlock_rejected catchBlock_def Let_def)
qed

theorem creation_timeout_exits_69_witness:
  "settled \<lparr>emitted = [stageEvent ''prepare request''], settled = Inl timeoutError\<rparr> = Inl timeoutError
   \<and> instanceofSfError timeoutError \<and> errName timeoutError = ''ScratchOrgInfoTimeoutError''
   \<and> errData timeoutError = Some ''0Rxxx''
   \<and> instanceUrl syncCmd = Some ''https://hub.my.salesforce.com''
   \<and> requestError syncCmd = None
   \<and> fst (run sdkStages syncCmd \<lparr>emitted = [stageEvent ''prepare request''], settled = Inl timeoutError\<rparr>) =
       Exit 69 ''The scratch org did not complete within your wait time''
   \<and> printed (snd (run sdkStages syncCmd
        \<lparr>emitted = [stageEvent ''prepare request''], settled = Inl timeoutError\<rparr>)) =
       [Info (Message ''action.resume'' [''sf'', ''0Rxxx''])]"
proof -
  have e: "instanceofSfError timeoutError \<and> errName timeoutError = ''ScratchOrgInfoTimeoutError''
     \<and> errData timeoutError = Some ''0Rxxx''"
    by (simp add: timeoutError_def)
  have c: "instanceUrl syncCmd = Some ''https://hub.my.salesforce.com'' \<and> requestError syncCmd = None
     \<and> bin syncCmd = ''sf''"
    by (simp add: syncCmd_def)
  show ?thesis
    using creation_timeout_exits_69 [of
        "\<lparr>emitted = [stageEvent ''prepare request''], settled = Inl timeoutError\<rparr>" timeoutError
        "''0Rxxx''" syncCmd "''https://hub.my.salesforce.com''" sdkStages] e c
    by simp
qed

text \<open>
  Claim C6. The stages that the status view of an event shows as completed are exactly the
  stages whose position in the stage list is strictly before the position of the event's
  stage, in that order. The tracker asks for exactly one such view per event, in the order
  of the events: whatever the sequence of events, the \<open>rerender\<close> calls made on the status
  view are the views of the events, one after the other.
\<close>

theorem completed_stages_precede_current:
  "map_option (completedOf \<circ> stageRows) (Status stages (Some d) baseUrl err) =
     Some (precedingStages stages (stage d))
   \<and> map_option (rerenders \<circ> calls)
       (statusInstance (fold (emit stages baseUrl) evs
          (startRendering stages (cmd\<lparr>async := False\<rparr>) baseUrl initial))) =
     Some (map (\<lambda>d. StatusNode (Status stages (Some d) baseUrl None)) evs)"
proof
  show "map_option (completedOf \<circ> stageRows) (Status stages (Some d) baseUrl err) =
     Some (precedingStages stages (stage d))"
    by (simp only: completedOf_Status precedingStages_take)
  have sub: "subscribed (startRendering stages (cmd\<lparr>async := False\<rparr>) baseUrl initial)"
    by (simp add: startRendering_def)
  show "map_option (rerenders \<circ> calls)
       (statusInstance (fold (emit stages baseUrl) evs
          (startRendering stages (cmd\<lparr>async := False\<rparr>) baseUrl initial))) =
     Some (map (\<lambda>d. StatusNode (Status stages (Some d) baseUrl None)) evs)"
    by (simp only: fold_emit_rerenders [OF sub]) (simp add: startRendering_def)
qed

theorem completed_stages_precede_current_witness:
  "map_option (completedOf \<circ> stageRows)
     (Status sdkStages (Some (stageEvent ''wait for org'')) ''https://hub.my.salesforce.com'' None) =
     Some [''prepare request'', ''send request'']
   \<and> precedingStages sdkStages ''wait for org'' = [''prepare request'', ''send request'']"
proof -
  have i: "indexOf sdkStages ''wait for org'' = 2"
    by (simp add: sdkStages_def)
  have p: "precedingStages sdkStages ''wait for org'' = [''prepare request'', ''send request'']"
    by (simp add: precedingStages_take i) (simp add: sdkStages_def)
  show ?thesis
    using completed_stages_precede_current [of sdkStages "stageEvent ''wait for org''"
        "''https://hub.my.salesforce.com''" None "[]" syncCmd] p
    by (simp add: stageEvent_def)
qed

text \<open>
  Claim C9. With \<open>--async\<close> the lifecycle callback is never registered, no status view is
  created, and the only thing drawn during the attempt is the one indicator that the request
  is being sent: it is rendered once and never rendered again. The events that the creation
  call emits have no effect on the attempt.
\<close>

theorem async_never_subscribes:
  "async cmd \<longrightarrow>
     \<not> subscribed (startRendering stages cmd baseUrl initial)
     \<and> \<not> subscribed (snd (attempt stages cmd baseUrl c))
     \<and> statusInstance (snd (attempt stages cmd baseUrl c)) = None
     \<and> map_option frames (asyncInstance (snd (attempt stages cmd baseUrl c))) =
         Some [SpinnerNode asyncLabel]
     \<and> map_option (rerenders \<circ> calls) (asyncInstance (snd (attempt stages cmd baseUrl c))) = Some []
     \<and> attempt stages cmd baseUrl c = attempt stages cmd baseUrl (c\<lparr>emitted := []\<rparr>)
     \<and> \<not> subscribed (snd (run stages cmd c))
     \<and> statusInstance (snd (run stages cmd c)) = None"
proof (intro impI)
  assume a: "async cmd"
  have ns: "\<not> subscribed (startRendering stages cmd baseUrl initial)" for baseUrl
    using a by (simp add: startRendering_def)
  have same: "attempt stages cmd baseUrl c = attempt stages cmd baseUrl (c\<lparr>emitted := []\<rparr>)"
    by (simp add: attempt_def scratchOrgCreate_def fold_emit_unsubscribed [OF ns])
  have att: "\<not> subscribed (snd (attempt stages cmd baseUrl c))
     \<and> statusInstance (snd (attempt stages cmd baseUrl c)) = None" for baseUrl
    by (subst (1 2) attempt_async [OF a]) simp
  have run: "\<not> subscribed (snd (run stages cmd c)) \<and> statusInstance (snd (run stages cmd c)) = None"
    using att by (simp add: run_def split: option.splits)
  have drawn: "map_option frames (asyncInstance (snd (attempt stages cmd baseUrl c))) =
         Some [SpinnerNode asyncLabel]
     \<and> map_option (rerenders \<circ> calls) (asyncInstance (snd (attempt stages cmd baseUrl c))) = Some []"
    by (subst (1 2) attempt_async [OF a]) simp
  show "\<not> subscribed (startRendering stages cmd baseUrl initial)
     \<and> \<not> subscribed (snd (attempt stages cmd baseUrl c))
     \<and> statusInstance (snd (attempt stages cmd baseUrl c)) = None
     \<and> map_option frames (asyncInstance (snd (attempt stages cmd baseUrl c))) =
         Some [SpinnerNode asyncLabel]
     \<and> map_option (rerenders \<circ> calls) (asyncInstance (snd (attempt stages cmd baseUrl c))) = Some []
     \<and> attempt stages cmd baseUrl c = attempt stages cmd baseUrl (c\<lparr>emitted := []\<rparr>)
     \<and> \<not> subscribed (snd (run stages cmd c))
     \<and> statusInstance (snd (run stages cmd c)) = None"
    using ns att run drawn same by blast
qed

theorem async_never_subscribes_witness:
  "async asyncCmd
   \<and> \<not> subscribed (snd (attempt sdkStages asyncCmd ''https://hub.my.salesforce.com''
         \<lparr>emitted = [stageEvent ''prepare request'', stageEvent ''done''], settled = Inr created\<rparr>))
   \<and> statusInstance (snd (attempt sdkStages asyncCmd ''https://hub.my.salesforce.com''
         \<lparr>emitted = [stageEvent ''prepare request'', stageEvent ''done''], settled = Inr created\<rparr>)) = None
   \<and> map_option frames (asyncInstance (snd (attempt sdkStages asyncCmd ''https://hub.my.salesforce.com''
         \<lparr>emitted = [stageEvent ''prepare request'', stageEvent ''done''], settled = Inr created\<rparr>))) =
       Some [SpinnerNode '' Requesting Scratch Org (will not wait for completion because --async)'']"
proof -
  have a: "async asyncCmd" by (simp add: asyncCmd_def)
  from async_never_subscribes [of asyncCmd sdkStages "''https://hub.my.salesforce.com''"
        "\<lparr>emitted = [stageEvent ''prepare request'', stageEvent ''done''], settled = Inr created\<rparr>"] a
  have "\<not> subscribed (snd (attempt sdkStages asyncCmd ''https://hub.my.salesforce.com''
         \<lparr>emitted = [stageEvent ''prepare request'', stageEvent ''done''], settled = Inr created\<rparr>))
   \<and> statusInstance (snd (attempt sdkStages asyncCmd ''https://hub.my.salesforce.com''
         \<lparr>emitted = [stageEvent ''prepare request'', stageEvent ''done''], settled = Inr created\<rparr>)) = None
   \<and> map_option frames (asyncInstance (snd (attempt sdkStages asyncCmd ''https://hub.my.salesforce.com''
         \<lparr>emitted = [stageEvent ''prepare request'', stageEvent ''done''], settled = Inr created\<rparr>))) =
       Some [SpinnerNode asyncLabel]"
    by blast
  then show ?thesis using a by (simp add: asyncLabel_def)
qed

text \<open>
  Claim C10. When the creation call resolves with a result that has no scratch org info, the
  command does not return: it throws the error with the message
  \<open>The scratch org did not return with any information\<close>, and prints no success line.
\<close>

theorem missing_info_throws:
  "settled c = Inr r \<and> res_scratchOrgInfo r = None
   \<and> instanceUrl cmd = Some baseUrl \<and> baseUrl \<noteq> [] \<and> requestError cmd = None
   \<longrightarrow> fst (run stages cmd c) =
         Thrown (SfError ''The scratch org did not return with any information'')
       \<and> printed (snd (run stages cmd c)) = []"
proof (intro impI)
  assume h: "settled c = Inr r \<and> res_scratchOrgInfo r = None
   \<and> instanceUrl cmd = Some baseUrl \<and> baseUrl \<noteq> [] \<and> requestError cmd = None"
  then have r: "run stages cmd c = attempt stages cmd baseUrl c" by (simp add: run_attempt)
  have p: "printed (startRendering stages cmd baseUrl initial) = []"
    by (simp add: startRendering_def)
  show "fst (run stages cmd c) =
         Thrown (SfError ''The scratch org did not return with any information'')
       \<and> printed (snd (run stages cmd c)) = []"
    using h p
    by (simp add: r attempt_def scratchOrgCreate_def tryBlock_no_info catchBlock_def Let_def
        SfError_def)
qed

theorem missing_info_throws_witness:
  "res_scratchOrgInfo (created\<lparr>res_scratchOrgInfo := None\<rparr>) = None
   \<and> instanceUrl syncCmd = Some ''https://hub.my.salesforce.com''
   \<and> requestError syncCmd = None
   \<and> fst (run sdkStages syncCmd
        \<lparr>emitted = [stageEvent ''done''], settled = Inr (created\<lparr>res_scratchOrgInfo := None\<rparr>)\<rparr>) =
       Thrown (SfError ''The scratch org did not return with any information'')"
proof -
  have c: "instanceUrl syncCmd = Some ''https://hub.my.salesforce.com'' \<and> requestError syncCmd = None"
    by (simp add: syncCmd_def)
  show ?thesis
    using missing_info_throws [of
        "\<lparr>emitted = [stageEvent ''done''], settled = Inr (created\<lparr>res_scratchOrgInfo := None\<rparr>)\<rparr>"
        "created\<lparr>res_scratchOrgInfo := None\<rparr>" syncCmd "''https://hub.my.salesforce.com''" sdkStages] c
    by simp
qed

end
